theory Spec2Isabelle
  imports Main "HOL-Library.Word"
begin

section \<open>Data model of the DeepSpeech engine wrapper\<close>

text \<open>
  The embedding follows \<^verbatim>\<open>src/deepspeech_wrapper.cpp\<close>. The class
  \<^verbatim>\<open>deepspeech_wrapper\<close> derives from \<^verbatim>\<open>engine_wrapper\<close>, whose
  declaration and body are not among the sources at hand; the members and helpers it
  contributes are named below where they enter.

  Audio samples are 16-bit PCM values, a native pointer is a natural number and the
  null pointer is \<open>None\<close>.
\<close>

type_synonym sample = "16 word"
type_synonym ds_buf_t = "sample list"
type_synonym handle = nat

datatype speech_mode_t = manual | single_sentence | automatic

datatype speech_detection_status_t = no_speech | speech_detected | decoding

datatype flush_t = Regular | Eof

datatype samples_process_result_t = wait_for_samples | no_samples_needed

text \<open>\<^verbatim>\<open>std::runtime_error\<close> with its message.\<close>

datatype error = runtime_error string

text \<open>
  Everything the wrapper does to the outside is recorded, in order, in a trace: the
  calls into the backend library (\<^verbatim>\<open>m_ds_api.STT_...\<close>, with their arguments) and
  the callbacks to the host (\<^verbatim>\<open>m_call_backs\<close>).
\<close>

datatype event =
    STT_CreateStream handle
  | STT_FreeStream handle
  | STT_FeedAudioContent "handle option" ds_buf_t
  | STT_IntermediateDecode "handle option"
  | STT_FinishStream "handle option"
  | STT_FreeString string
  | on_speech_detection_status_changed speech_detection_status_t
  | on_intermediate_text string
  | sentence_timeout
  | on_flush flush_t

text \<open>
  The members of the object that \<^verbatim>\<open>process_buff\<close>, \<^verbatim>\<open>decode_speech\<close>,
  \<^verbatim>\<open>create_ds_stream\<close>, \<^verbatim>\<open>free_ds_stream\<close> and \<^verbatim>\<open>reset_impl\<close> read or write.
  \<^verbatim>\<open>m_start_time\<close> is the optional time point of the sentence timer.
\<close>

record engine =
  m_speech_mode :: speech_mode_t
  m_speech_buf :: ds_buf_t
  m_ds_model :: "handle option"
  m_ds_stream :: "handle option"
  m_intermediate_text :: "string option"
  m_speech_detection_status :: speech_detection_status_t
  m_speech_started :: bool
  m_thread_exit_requested :: bool
  m_start_time :: "nat option"
  trace :: "event list"

text \<open>
  What one call of \<^verbatim>\<open>process_buff\<close> receives from its collaborators, none of which
  is defined in the sources at hand, so each answer is a parameter of the step:
  \<^item> \<open>lock_ok\<close>: the value returned by \<^verbatim>\<open>lock_buff_for_processing()\<close>;
  \<^item> \<open>in_sof\<close>, \<open>in_eof\<close>: the flags \<^verbatim>\<open>m_in_buf.sof\<close> and \<^verbatim>\<open>m_in_buf.eof\<close> of
    the claimed frame;
  \<^item> \<open>vad_buf\<close>: the samples returned by
    \<^verbatim>\<open>m_vad.remove_silence(m_in_buf.buf.data(), m_in_buf.size)\<close>;
  \<^item> \<open>timed_out\<close>: the value returned by \<^verbatim>\<open>sentence_timer_timed_out()\<close>;
  \<^item> \<open>now\<close>: the reading of the monotonic clock;
  \<^item> \<open>create_status\<close>, \<open>create_stream\<close>: the status returned by
    \<^verbatim>\<open>STT_CreateStream\<close> and the pointer it stores through its second argument;
  \<^item> \<open>decoded\<close>: the C string returned by \<^verbatim>\<open>STT_IntermediateDecode\<close> or
    \<^verbatim>\<open>STT_FinishStream\<close>.
  The frame itself (\<^verbatim>\<open>m_in_buf\<close>, cleared twice after the detector ran and released
  by \<^verbatim>\<open>free_buf()\<close>) and the detector's rolling state (\<^verbatim>\<open>m_vad.reset()\<close>) are
  seen only through these answers.
\<close>

record step_in =
  lock_ok :: bool
  in_sof :: bool
  in_eof :: bool
  vad_buf :: ds_buf_t
  timed_out :: bool
  now :: nat
  create_status :: int
  create_stream :: "handle option"
  decoded :: string

section \<open>Helpers of the base class\<close>

definition emit :: "event \<Rightarrow> engine \<Rightarrow> engine" where
  "emit e s = s\<lparr>trace := trace s @ [e]\<rparr>"

text \<open>
  Modelled from the spec: \<^verbatim>\<open>set_speech_detection_status\<close> of the base class is
  missing from the sources. The status is a single current value, observable via
  callback on every transition.
\<close>

definition set_speech_detection_status :: "speech_detection_status_t \<Rightarrow> engine \<Rightarrow> engine" where
  "set_speech_detection_status st s =
     (if m_speech_detection_status s = st then s
      else emit (on_speech_detection_status_changed st) (s\<lparr>m_speech_detection_status := st\<rparr>))"

text \<open>
  Modelled from the spec: \<^verbatim>\<open>set_intermediate_text\<close> of the base class is missing
  from the sources. It stores the last emitted transcript and emits it through the
  intermediate-text callback.
\<close>

definition set_intermediate_text :: "string \<Rightarrow> engine \<Rightarrow> engine" where
  "set_intermediate_text text s = emit (on_intermediate_text text) (s\<lparr>m_intermediate_text := Some text\<rparr>)"

text \<open>
  Modelled from the spec: \<^verbatim>\<open>flush\<close> of the base class is missing from the sources.
  It signals to the host that an utterance boundary occurred, with its kind.
\<close>

definition flush :: "flush_t \<Rightarrow> engine \<Rightarrow> engine" where
  "flush k s = emit (on_flush k) s"

text \<open>
  Modelled from the spec: \<^verbatim>\<open>restart_sentence_timer\<close> of the base class is missing
  from the sources. The timer is reset on any detected speech.
\<close>

definition restart_sentence_timer :: "step_in \<Rightarrow> engine \<Rightarrow> engine" where
  "restart_sentence_timer i s = s\<lparr>m_start_time := Some (now i)\<rparr>"

section \<open>The decoding session\<close>

text \<open>\<^verbatim>\<open>free_ds_stream\<close>, lines 109-114.\<close>

definition free_ds_stream :: "engine \<Rightarrow> engine" where
  "free_ds_stream s =
     (case m_ds_stream s of
        Some h \<Rightarrow> (emit (STT_FreeStream h) s)\<lparr>m_ds_stream := None\<rparr>
      | None \<Rightarrow> s)"

text \<open>
  \<^verbatim>\<open>create_ds_stream\<close>, lines 116-125. The first line returns when a stream is open
  or the model is null. Otherwise the backend is called; it writes the stream pointer
  and returns a status, and a non-zero status or a null pointer throws. The engine as
  it is when the exception leaves is kept beside the error.
\<close>

definition create_ds_stream :: "step_in \<Rightarrow> engine \<Rightarrow> (error \<times> engine) + engine" where
  "create_ds_stream i s =
     (case m_ds_model s of
        None \<Rightarrow> Inr s
      | Some m \<Rightarrow>
          if m_ds_stream s \<noteq> None then Inr s
          else
            let s1 = (emit (STT_CreateStream m) s)\<lparr>m_ds_stream := create_stream i\<rparr>
            in if create_status i \<noteq> 0 \<or> m_ds_stream s1 = None
               then Inl (runtime_error ''failed to create ds stream'', s1)
               else Inr s1)"

text \<open>\<^verbatim>\<open>reset_impl\<close>, lines 127-130.\<close>

definition reset_impl :: "engine \<Rightarrow> engine" where
  "reset_impl s = free_ds_stream (s\<lparr>m_speech_buf := []\<rparr>)"

text \<open>
  Modelled from the spec: \<^verbatim>\<open>reset\<close> of the base class is missing from the sources;
  only its hook \<^verbatim>\<open>reset_impl\<close> is there. Reset clears the buffer, destroys the
  session and resets the detector and the timer, and it leaves an empty buffer, no
  session and a cleared intermediate text. The buffer and the session are the hook's
  part; the timer and the intermediate text are members of the base class. The
  detector's rolling state is not held in the engine record.
\<close>

definition reset :: "engine \<Rightarrow> engine" where
  "reset s = (reset_impl s)\<lparr>m_start_time := None, m_intermediate_text := None\<rparr>"

text \<open>
  The lambda of \<^verbatim>\<open>decode_speech\<close>, lines 237-242: an intermediate decode leaves
  the stream open; a final one finishes the stream and nulls the handle before the
  C string is returned.
\<close>

definition decode_cstr :: "step_in \<Rightarrow> bool \<Rightarrow> engine \<Rightarrow> string \<times> engine" where
  "decode_cstr i eof s =
     (if \<not> eof then (decoded i, emit (STT_IntermediateDecode (m_ds_stream s)) s)
      else (decoded i, (emit (STT_FinishStream (m_ds_stream s)) s)\<lparr>m_ds_stream := None\<rparr>))"

text \<open>
  Lines 244-254 of \<^verbatim>\<open>decode_speech\<close>: the C string is copied into \<open>result\<close>, then
  freed, and the text is stored when there is no intermediate text or it differs.
\<close>

definition publish_result :: "string \<Rightarrow> engine \<Rightarrow> engine" where
  "publish_result cstr s =
     (let result = cstr;
          s1 = emit (STT_FreeString cstr) s
      in if m_intermediate_text s1 = None \<or> m_intermediate_text s1 \<noteq> Some result
         then set_intermediate_text result s1
         else s1)"

text \<open>\<^verbatim>\<open>decode_speech\<close>, lines 228-255.\<close>

definition decode_speech :: "step_in \<Rightarrow> ds_buf_t \<Rightarrow> bool \<Rightarrow> engine \<Rightarrow> (error \<times> engine) + engine" where
  "decode_speech i buf eof s =
     (if m_ds_stream s = None \<and> eof then Inr s
      else
        case create_ds_stream i s of
          Inl e \<Rightarrow> Inl e
        | Inr s1 \<Rightarrow>
            let s2 = emit (STT_FeedAudioContent (m_ds_stream s1) buf) s1;
                (cstr, s3) = decode_cstr i eof s2
            in Inr (publish_result cstr s3))"

section \<open>The processing step\<close>

text \<open>Lines 144-151 of \<^verbatim>\<open>process_buff\<close>: the start-of-frame marker.\<close>

definition pb_sof :: "step_in \<Rightarrow> engine \<Rightarrow> (error \<times> engine) + engine" where
  "pb_sof i s =
     (if in_sof i
      then create_ds_stream i (free_ds_stream (s\<lparr>m_speech_buf := [], m_start_time := None\<rparr>))
      else Inr s)"

text \<open>
  Lines 153-183 of \<^verbatim>\<open>process_buff\<close>: the detector's answer, with
  \<open>vad_status = (vad_buf i \<noteq> [])\<close>.
\<close>

definition pb_vad :: "step_in \<Rightarrow> engine \<Rightarrow> engine" where
  "pb_vad i s =
     (let vad_status = (vad_buf i \<noteq> []) in
      if vad_status then
        let s1 = (if m_speech_mode s \<noteq> manual
                  then set_speech_detection_status speech_detected s else s);
            s2 = s1\<lparr>m_speech_buf := m_speech_buf s1 @ vad_buf i\<rparr>
        in restart_sentence_timer i s2
      else if m_speech_mode s = single_sentence \<and> m_speech_buf s = [] \<and>
              (case m_intermediate_text s of None \<Rightarrow> True | Some t \<Rightarrow> t = []) \<and>
              timed_out i
           then emit sentence_timeout s
           else s)"

text \<open>The lambda of lines 190-198, over the locals \<open>eof\<close> and \<open>vad_status\<close>.\<close>

definition final_decode :: "bool \<Rightarrow> bool \<Rightarrow> engine \<Rightarrow> bool" where
  "final_decode eof vad_status s =
     (if eof then True
      else if m_speech_mode s = single_sentence \<and>
              (case m_intermediate_text s of None \<Rightarrow> False | Some t \<Rightarrow> t \<noteq> []) \<and>
              \<not> vad_status then True
      else if m_speech_mode s = automatic \<and> \<not> vad_status then True
      else False)"

text \<open>
  Lines 200-203 of \<^verbatim>\<open>process_buff\<close>: the engine as \<^verbatim>\<open>decode_speech\<close> is called
  with it.
\<close>

definition pb_before_decode :: "bool \<Rightarrow> engine \<Rightarrow> engine" where
  "pb_before_decode fd s =
     (if fd \<and> m_speech_mode s \<noteq> automatic
      then set_speech_detection_status decoding s else s)"

text \<open>
  Lines 210-221 of \<^verbatim>\<open>process_buff\<close>, after \<^verbatim>\<open>decode_speech\<close> returned:
  the buffer is cleared, the status set and the flush signalled.
\<close>

definition pb_after_decode :: "bool \<Rightarrow> bool \<Rightarrow> speech_detection_status_t \<Rightarrow> engine \<Rightarrow> engine" where
  "pb_after_decode eof fd old_status s =
     (let s1 = s\<lparr>m_speech_buf := []\<rparr>;
          s2 = (if fd \<or> (m_speech_mode s1 = manual \<and> \<not> m_speech_started s1)
                then set_speech_detection_status no_speech s1
                else set_speech_detection_status old_status s1)
      in if fd
         then flush (if \<not> eof \<and> m_speech_mode s2 = automatic then Regular else Eof) s2
         else s2)"

text \<open>Lines 190-221 of \<^verbatim>\<open>process_buff\<close>.\<close>

definition pb_decode :: "step_in \<Rightarrow> engine \<Rightarrow> (error \<times> engine) + engine" where
  "pb_decode i s =
     (let eof = in_eof i;
          vad_status = (vad_buf i \<noteq> []);
          fd = final_decode eof vad_status s;
          old_status = m_speech_detection_status s;
          s1 = pb_before_decode fd s
      in case decode_speech i (m_speech_buf s1) fd s1 of
           Inl e \<Rightarrow> Inl e
         | Inr s2 \<Rightarrow> Inr (pb_after_decode eof fd old_status s2))"

text \<open>\<^verbatim>\<open>process_buff\<close>, lines 132-226.\<close>

definition process_buff :: "step_in \<Rightarrow> engine \<Rightarrow> (error \<times> engine) + (samples_process_result_t \<times> engine)" where
  "process_buff i s =
     (if \<not> lock_ok i then Inr (wait_for_samples, s)
      else
        case pb_sof i s of
          Inl e \<Rightarrow> Inl e
        | Inr s1 \<Rightarrow>
            let s2 = pb_vad i s1 in
            if m_thread_exit_requested s2 then Inr (no_samples_needed, s2)
            else
              case pb_decode i s2 of
                Inl e \<Rightarrow> Inl e
              | Inr s3 \<Rightarrow> Inr (wait_for_samples, s3))"

text \<open>
  Consecutive processing steps: the worker calls \<^verbatim>\<open>process_buff\<close> once per frame,
  and an exception ends the run.
\<close>

fun run_steps :: "step_in list \<Rightarrow> engine \<Rightarrow> (error \<times> engine) + engine" where
  "run_steps [] s = Inr s"
| "run_steps (i # rest) s =
     (case process_buff i s of
        Inl e \<Rightarrow> Inl e
      | Inr (r, s') \<Rightarrow> run_steps rest s')"

section \<open>Observations on the trace\<close>

fun flushes :: "event list \<Rightarrow> flush_t list" where
  "flushes [] = []"
| "flushes (on_flush k # es) = k # flushes es"
| "flushes (e # es) = flushes es"

fun texts :: "event list \<Rightarrow> string list" where
  "texts [] = []"
| "texts (on_intermediate_text t # es) = t # texts es"
| "texts (e # es) = texts es"

fun timeouts :: "event list \<Rightarrow> nat" where
  "timeouts [] = 0"
| "timeouts (sentence_timeout # es) = Suc (timeouts es)"
| "timeouts (e # es) = timeouts es"

text \<open>The buffers handed to \<^verbatim>\<open>STT_FeedAudioContent\<close>, with the stream they went to.\<close>

fun feeds :: "event list \<Rightarrow> (handle option \<times> ds_buf_t) list" where
  "feeds [] = []"
| "feeds (STT_FeedAudioContent h b # es) = (h, b) # feeds es"
| "feeds (e # es) = feeds es"

text \<open>The callbacks to the host, as opposed to the calls into the backend.\<close>

fun is_callback :: "event \<Rightarrow> bool" where
  "is_callback (on_speech_detection_status_changed st) = True"
| "is_callback (on_intermediate_text t) = True"
| "is_callback sentence_timeout = True"
| "is_callback (on_flush k) = True"
| "is_callback e = False"

definition callbacks :: "event list \<Rightarrow> event list" where
  "callbacks es = filter is_callback es"

section \<open>Concrete engines and frames\<close>

text \<open>
  An engine after construction and \<^verbatim>\<open>start_processing_impl\<close>: the model is loaded
  (handle 1), nothing else has happened.
\<close>

definition started :: "speech_mode_t \<Rightarrow> engine" where
  "started mode =
     \<lparr>m_speech_mode = mode, m_speech_buf = [], m_ds_model = Some 1, m_ds_stream = None,
      m_intermediate_text = None, m_speech_detection_status = no_speech,
      m_speech_started = False, m_thread_exit_requested = False, m_start_time = None,
      trace = []\<rparr>"

text \<open>
  A claimed frame with the given flags and detector output, at clock reading 0, the
  timer not expired; the backend opens stream 7 on request and decodes to the given
  text.
\<close>

definition frame :: "bool \<Rightarrow> bool \<Rightarrow> ds_buf_t \<Rightarrow> string \<Rightarrow> step_in" where
  "frame sof eof vad txt =
     \<lparr>lock_ok = True, in_sof = sof, in_eof = eof, vad_buf = vad, timed_out = False,
      now = 0, create_status = 0, create_stream = Some 7, decoded = txt\<rparr>"

text \<open>
  The same engine before \<^verbatim>\<open>start_processing_impl\<close> ran: the model handle is
  still null.
\<close>

definition unstarted :: "speech_mode_t \<Rightarrow> engine" where
  "unstarted mode = (started mode)\<lparr>m_ds_model := None\<rparr>"

text \<open>
  An engine in the middle of an utterance: stream 7 is open, speech was detected and
  the text \<open>''hi''\<close> was emitted last.
\<close>

definition listening :: "speech_mode_t \<Rightarrow> engine" where
  "listening mode =
     (started mode)\<lparr>m_ds_stream := Some 7, m_speech_detection_status := speech_detected,
                     m_intermediate_text := Some ''hi''\<rparr>"

text \<open>A frame with speech for which the backend refuses to open a stream.\<close>

definition failing_frame :: step_in where
  "failing_frame = (frame False False [5] ''hi'')\<lparr>create_status := 1, create_stream := None\<rparr>"

text \<open>
  A single-sentence engine whose timer was started at clock reading 0, and a silent
  frame claimed at clock reading \<open>t\<close> for which the timer reports that it timed out; the
  backend decodes silence to the empty text.
\<close>

definition idle_engine :: engine where
  "idle_engine = (started single_sentence)\<lparr>m_start_time := Some 0\<rparr>"

definition idle_frame :: "nat \<Rightarrow> step_in" where
  "idle_frame t = (frame False False [] [])\<lparr>timed_out := True, now := t\<rparr>"

section \<open>Idle steps\<close>

text \<open>
  A step is idle when its frame is claimed in single-sentence mode, the detector finds
  no speech, the utterance buffer is empty when line 177 tests it (it was empty before
  the step, or the frame carries the start marker, which clears it), there is no
  non-empty intermediate text and the sentence timer reports that it timed out.
\<close>

definition idle_step :: "step_in \<Rightarrow> engine \<Rightarrow> bool" where
  "idle_step i s \<longleftrightarrow>
     lock_ok i \<and> m_speech_mode s = single_sentence \<and> vad_buf i = [] \<and>
     (in_sof i \<or> m_speech_buf s = []) \<and>
     (case m_intermediate_text s of None \<Rightarrow> True | Some t \<Rightarrow> t = []) \<and>
     timed_out i"

text \<open>A run of consecutive steps, each idle in the engine the previous one left.\<close>

fun idle_run :: "step_in list \<Rightarrow> engine \<Rightarrow> bool" where
  "idle_run [] s = True"
| "idle_run (i # rest) s =
     (idle_step i s \<and>
      (case process_buff i s of
         Inl e \<Rightarrow> False
       | Inr (r, s') \<Rightarrow> idle_run rest s'))"

section \<open>What each part of the step keeps\<close>

lemma flushes_append: "flushes (xs @ ys) = flushes xs @ flushes ys"
  by (induction xs rule: flushes.induct) simp_all

lemma texts_append: "texts (xs @ ys) = texts xs @ texts ys"
  by (induction xs rule: texts.induct) simp_all

lemma timeouts_append: "timeouts (xs @ ys) = timeouts xs + timeouts ys"
  by (induction xs rule: timeouts.induct) simp_all

lemma feeds_append: "feeds (xs @ ys) = feeds xs @ feeds ys"
  by (induction xs rule: feeds.induct) simp_all

lemmas obs_append = flushes_append texts_append timeouts_append feeds_append

lemmas helper_defs = emit_def set_speech_detection_status_def set_intermediate_text_def
  flush_def restart_sentence_timer_def free_ds_stream_def

lemmas step_defs = process_buff_def pb_sof_def pb_vad_def pb_decode_def pb_before_decode_def
  pb_after_decode_def final_decode_def decode_speech_def decode_cstr_def publish_result_def
  create_ds_stream_def free_ds_stream_def set_speech_detection_status_def
  set_intermediate_text_def flush_def restart_sentence_timer_def emit_def

lemma emit_keeps:
  "m_speech_mode (emit e s) = m_speech_mode s \<and>
   m_intermediate_text (emit e s) = m_intermediate_text s \<and>
   m_speech_buf (emit e s) = m_speech_buf s \<and>
   m_speech_detection_status (emit e s) = m_speech_detection_status s \<and>
   m_speech_started (emit e s) = m_speech_started s \<and>
   m_ds_stream (emit e s) = m_ds_stream s \<and> m_ds_model (emit e s) = m_ds_model s \<and>
   trace (emit e s) = trace s @ [e]"
  by (simp add: emit_def)

lemma set_status_keeps:
  "m_speech_mode (set_speech_detection_status st s) = m_speech_mode s \<and>
   m_intermediate_text (set_speech_detection_status st s) = m_intermediate_text s \<and>
   m_speech_buf (set_speech_detection_status st s) = m_speech_buf s \<and>
   m_speech_detection_status (set_speech_detection_status st s) = st \<and>
   m_speech_started (set_speech_detection_status st s) = m_speech_started s \<and>
   m_ds_stream (set_speech_detection_status st s) = m_ds_stream s \<and>
   m_ds_model (set_speech_detection_status st s) = m_ds_model s \<and>
   flushes (trace (set_speech_detection_status st s)) = flushes (trace s) \<and>
   texts (trace (set_speech_detection_status st s)) = texts (trace s) \<and>
   timeouts (trace (set_speech_detection_status st s)) = timeouts (trace s) \<and>
   feeds (trace (set_speech_detection_status st s)) = feeds (trace s)"
  by (simp add: set_speech_detection_status_def emit_def obs_append)

lemma free_ds_stream_keeps:
  "m_speech_mode (free_ds_stream s) = m_speech_mode s \<and>
   m_intermediate_text (free_ds_stream s) = m_intermediate_text s \<and>
   m_speech_buf (free_ds_stream s) = m_speech_buf s \<and>
   m_speech_detection_status (free_ds_stream s) = m_speech_detection_status s \<and>
   m_speech_started (free_ds_stream s) = m_speech_started s \<and>
   m_thread_exit_requested (free_ds_stream s) = m_thread_exit_requested s \<and>
   m_ds_model (free_ds_stream s) = m_ds_model s \<and>
   m_start_time (free_ds_stream s) = m_start_time s \<and>
   m_ds_stream (free_ds_stream s) = None \<and>
   flushes (trace (free_ds_stream s)) = flushes (trace s) \<and>
   texts (trace (free_ds_stream s)) = texts (trace s) \<and>
   timeouts (trace (free_ds_stream s)) = timeouts (trace s) \<and>
   feeds (trace (free_ds_stream s)) = feeds (trace s)"
  by (simp add: free_ds_stream_def emit_def obs_append split: option.splits)

lemma create_ds_stream_keeps:
  assumes "create_ds_stream i s = Inr s1"
  shows "m_speech_mode s1 = m_speech_mode s \<and> m_intermediate_text s1 = m_intermediate_text s \<and>
         m_speech_buf s1 = m_speech_buf s \<and> m_speech_detection_status s1 = m_speech_detection_status s \<and>
         m_speech_started s1 = m_speech_started s \<and> m_thread_exit_requested s1 = m_thread_exit_requested s \<and>
         m_ds_model s1 = m_ds_model s \<and> m_start_time s1 = m_start_time s \<and>
         flushes (trace s1) = flushes (trace s) \<and> texts (trace s1) = texts (trace s) \<and>
         timeouts (trace s1) = timeouts (trace s) \<and> feeds (trace s1) = feeds (trace s) \<and>
         (m_ds_model s \<noteq> None \<longrightarrow> m_ds_stream s1 \<noteq> None)"
  using assms
  by (auto simp: create_ds_stream_def emit_def obs_append Let_def split: option.splits if_splits)

lemma create_ds_stream_throws:
  assumes "create_ds_stream i s = Inl (e, s1)"
  shows "m_speech_mode s1 = m_speech_mode s \<and> m_intermediate_text s1 = m_intermediate_text s \<and>
         m_speech_buf s1 = m_speech_buf s \<and> m_speech_detection_status s1 = m_speech_detection_status s \<and>
         flushes (trace s1) = flushes (trace s) \<and> texts (trace s1) = texts (trace s) \<and>
         timeouts (trace s1) = timeouts (trace s) \<and> feeds (trace s1) = feeds (trace s) \<and>
         m_ds_stream s = None \<and> m_ds_model s \<noteq> None \<and>
         (create_status i \<noteq> 0 \<or> create_stream i = None)"
  using assms
  by (auto simp: create_ds_stream_def emit_def obs_append Let_def split: option.splits if_splits)

lemma create_ds_stream_fails:
  assumes "m_ds_stream s = None" and "m_ds_model s = Some m"
    and "create_status i \<noteq> 0 \<or> create_stream i = None"
  shows "create_ds_stream i s =
           Inl (runtime_error ''failed to create ds stream'',
                (emit (STT_CreateStream m) s)\<lparr>m_ds_stream := create_stream i\<rparr>)"
  using assms by (auto simp: create_ds_stream_def Let_def)

lemma create_ds_stream_guard:
  assumes "m_ds_stream s \<noteq> None \<or> m_ds_model s = None"
  shows "create_ds_stream i s = Inr s"
  using assms by (auto simp: create_ds_stream_def split: option.splits)

lemma decode_cstr_keeps:
  "m_speech_mode (snd (decode_cstr i eof s)) = m_speech_mode s \<and>
   m_intermediate_text (snd (decode_cstr i eof s)) = m_intermediate_text s \<and>
   m_speech_buf (snd (decode_cstr i eof s)) = m_speech_buf s \<and>
   m_speech_detection_status (snd (decode_cstr i eof s)) = m_speech_detection_status s \<and>
   m_speech_started (snd (decode_cstr i eof s)) = m_speech_started s \<and>
   m_ds_stream (snd (decode_cstr i eof s)) = (if eof then None else m_ds_stream s) \<and>
   flushes (trace (snd (decode_cstr i eof s))) = flushes (trace s) \<and>
   texts (trace (snd (decode_cstr i eof s))) = texts (trace s) \<and>
   timeouts (trace (snd (decode_cstr i eof s))) = timeouts (trace s) \<and>
   feeds (trace (snd (decode_cstr i eof s))) = feeds (trace s)"
  by (simp add: decode_cstr_def emit_def obs_append)

lemma publish_result_keeps:
  "m_speech_mode (publish_result r s) = m_speech_mode s \<and>
   m_intermediate_text (publish_result r s) = Some r \<and>
   m_speech_buf (publish_result r s) = m_speech_buf s \<and>
   m_speech_detection_status (publish_result r s) = m_speech_detection_status s \<and>
   m_speech_started (publish_result r s) = m_speech_started s \<and>
   m_ds_stream (publish_result r s) = m_ds_stream s \<and>
   flushes (trace (publish_result r s)) = flushes (trace s) \<and>
   texts (trace (publish_result r s)) =
     texts (trace s) @ (if m_intermediate_text s = Some r then [] else [r]) \<and>
   timeouts (trace (publish_result r s)) = timeouts (trace s) \<and>
   feeds (trace (publish_result r s)) = feeds (trace s)"
  by (simp add: publish_result_def set_intermediate_text_def emit_def obs_append Let_def)

lemma callbacks_publish_result:
  "callbacks (trace (publish_result r s)) =
     callbacks (trace s) @ (if m_intermediate_text s = Some r then [] else [on_intermediate_text r])"
  by (simp add: publish_result_def set_intermediate_text_def emit_def callbacks_def Let_def)

lemma callbacks_decode_cstr:
  "callbacks (trace (snd (decode_cstr i eof s))) = callbacks (trace s)"
  by (simp add: decode_cstr_def emit_def callbacks_def)

lemma decode_speech_result:
  assumes "\<not> (m_ds_stream s = None \<and> eof)" and "decode_speech i buf eof s = Inr s'"
  shows "\<exists>s1. create_ds_stream i s = Inr s1 \<and>
           s' = publish_result (decoded i)
                  (snd (decode_cstr i eof (emit (STT_FeedAudioContent (m_ds_stream s1) buf) s1)))"
  using assms
  by (auto simp: decode_speech_def decode_cstr_def Let_def split: sum.splits if_splits)

lemma decode_speech_open:
  assumes "m_ds_stream s = Some h"
  shows "decode_speech i buf eof s =
           Inr (publish_result (decoded i)
                  (snd (decode_cstr i eof (emit (STT_FeedAudioContent (Some h) buf) s))))"
  using assms
  by (simp add: decode_speech_def create_ds_stream_def decode_cstr_def emit_def split: option.splits)

lemma decode_speech_keeps:
  assumes "decode_speech i buf eof s = Inr s'"
  shows "m_speech_mode s' = m_speech_mode s \<and>
         m_speech_detection_status s' = m_speech_detection_status s \<and>
         m_speech_started s' = m_speech_started s \<and>
         m_speech_buf s' = m_speech_buf s \<and>
         flushes (trace s') = flushes (trace s) \<and>
         timeouts (trace s') = timeouts (trace s)"
proof (cases "m_ds_stream s = None \<and> eof")
  case True
  with assms show ?thesis by (simp add: decode_speech_def)
next
  case False
  from decode_speech_result [OF False assms] obtain s1 where
    c: "create_ds_stream i s = Inr s1" and
    r: "s' = publish_result (decoded i)
              (snd (decode_cstr i eof (emit (STT_FeedAudioContent (m_ds_stream s1) buf) s1)))"
    by blast
  show ?thesis
    unfolding r
    using create_ds_stream_keeps [OF c]
    by (simp add: publish_result_keeps decode_cstr_keeps emit_keeps obs_append)
qed

lemma decode_speech_throws:
  assumes "decode_speech i buf eof s = Inl (e, s')"
  shows "create_ds_stream i s = Inl (e, s') \<and> \<not> eof"
  using assms
  by (auto simp: decode_speech_def create_ds_stream_def decode_cstr_def Let_def split: option.splits sum.splits if_splits prod.splits)

lemma decode_speech_texts:
  assumes "\<not> (m_ds_stream s = None \<and> eof)" and "decode_speech i buf eof s = Inr s'"
  shows "texts (trace s') =
           texts (trace s) @ (if m_intermediate_text s = Some (decoded i) then [] else [decoded i]) \<and>
         m_intermediate_text s' = Some (decoded i)"
proof -
  from decode_speech_result [OF assms] obtain s1 where
    c: "create_ds_stream i s = Inr s1" and
    r: "s' = publish_result (decoded i)
              (snd (decode_cstr i eof (emit (STT_FeedAudioContent (m_ds_stream s1) buf) s1)))"
    by blast
  show ?thesis
    unfolding r using create_ds_stream_keeps [OF c]
    by (simp add: publish_result_keeps decode_cstr_keeps emit_keeps obs_append)
qed

lemma decode_speech_feeds:
  assumes "decode_speech i buf eof s = Inr s'"
  shows "(s' = s \<and> m_ds_stream s = None \<and> eof) \<or>
         (\<exists>s1. create_ds_stream i s = Inr s1 \<and>
               feeds (trace s') = feeds (trace s) @ [(m_ds_stream s1, buf)])"
proof (cases "m_ds_stream s = None \<and> eof")
  case True
  with assms show ?thesis by (simp add: decode_speech_def)
next
  case False
  from decode_speech_result [OF False assms] obtain s1 where
    c: "create_ds_stream i s = Inr s1" and
    r: "s' = publish_result (decoded i)
              (snd (decode_cstr i eof (emit (STT_FeedAudioContent (m_ds_stream s1) buf) s1)))"
    by blast
  have "feeds (trace s') = feeds (trace s) @ [(m_ds_stream s1, buf)]"
    unfolding r using create_ds_stream_keeps [OF c]
    by (simp add: publish_result_keeps decode_cstr_keeps emit_keeps obs_append)
  with c show ?thesis by blast
qed

lemma pb_sof_keeps:
  assumes "pb_sof i s = Inr s1"
  shows "m_speech_mode s1 = m_speech_mode s \<and> m_intermediate_text s1 = m_intermediate_text s \<and>
         m_speech_buf s1 = (if in_sof i then [] else m_speech_buf s) \<and>
         m_speech_detection_status s1 = m_speech_detection_status s \<and>
         m_speech_started s1 = m_speech_started s \<and> m_thread_exit_requested s1 = m_thread_exit_requested s \<and>
         m_ds_model s1 = m_ds_model s \<and>
         flushes (trace s1) = flushes (trace s) \<and> texts (trace s1) = texts (trace s) \<and>
         timeouts (trace s1) = timeouts (trace s) \<and> feeds (trace s1) = feeds (trace s)"
proof (cases "in_sof i")
  case False
  with assms show ?thesis by (simp add: pb_sof_def)
next
  case True
  with assms have c: "create_ds_stream i (free_ds_stream (s\<lparr>m_speech_buf := [], m_start_time := None\<rparr>)) = Inr s1"
    by (simp add: pb_sof_def)
  show ?thesis
    using create_ds_stream_keeps [OF c] free_ds_stream_keeps [of "s\<lparr>m_speech_buf := [], m_start_time := None\<rparr>"] True
    by simp
qed

lemma pb_sof_fails:
  assumes "in_sof i" and "m_ds_model s = Some m"
    and "create_status i \<noteq> 0 \<or> create_stream i = None"
  shows "\<exists>s1. pb_sof i s = Inl (runtime_error ''failed to create ds stream'', s1) \<and>
              feeds (trace s1) = feeds (trace s)"
proof -
  let ?s0 = "free_ds_stream (s\<lparr>m_speech_buf := [], m_start_time := None\<rparr>)"
  have a: "m_ds_stream ?s0 = None" "m_ds_model ?s0 = Some m" "feeds (trace ?s0) = feeds (trace s)"
    using assms(2) free_ds_stream_keeps [of "s\<lparr>m_speech_buf := [], m_start_time := None\<rparr>"]
    by simp_all
  from create_ds_stream_fails [OF a(1) a(2) assms(3)]
  have c: "create_ds_stream i ?s0 =
             Inl (runtime_error ''failed to create ds stream'',
                  (emit (STT_CreateStream m) ?s0)\<lparr>m_ds_stream := create_stream i\<rparr>)" .
  have "feeds (trace ((emit (STT_CreateStream m) ?s0)\<lparr>m_ds_stream := create_stream i\<rparr>)) =
          feeds (trace s)"
    using a(3) by (simp add: emit_def obs_append)
  with c assms(1) show ?thesis by (simp add: pb_sof_def)
qed

lemma pb_vad_keeps:
  "m_speech_mode (pb_vad i s) = m_speech_mode s \<and>
   m_intermediate_text (pb_vad i s) = m_intermediate_text s \<and>
   m_speech_buf (pb_vad i s) = m_speech_buf s @ vad_buf i \<and>
   m_speech_detection_status (pb_vad i s) =
     (if vad_buf i \<noteq> [] \<and> m_speech_mode s \<noteq> manual then speech_detected else m_speech_detection_status s) \<and>
   m_speech_started (pb_vad i s) = m_speech_started s \<and>
   m_thread_exit_requested (pb_vad i s) = m_thread_exit_requested s \<and>
   m_ds_model (pb_vad i s) = m_ds_model s \<and> m_ds_stream (pb_vad i s) = m_ds_stream s \<and>
   flushes (trace (pb_vad i s)) = flushes (trace s) \<and> texts (trace (pb_vad i s)) = texts (trace s) \<and>
   feeds (trace (pb_vad i s)) = feeds (trace s)"
  by (simp add: pb_vad_def helper_defs obs_append Let_def)

lemma pb_vad_timeouts:
  "timeouts (trace (pb_vad i s)) =
     timeouts (trace s) +
       (if vad_buf i = [] \<and> m_speech_mode s = single_sentence \<and> m_speech_buf s = [] \<and>
           (case m_intermediate_text s of None \<Rightarrow> True | Some t \<Rightarrow> t = []) \<and> timed_out i
        then 1 else 0)"
  by (simp add: pb_vad_def helper_defs obs_append Let_def)

lemma pb_before_decode_keeps:
  "m_speech_mode (pb_before_decode fd s) = m_speech_mode s \<and>
   m_intermediate_text (pb_before_decode fd s) = m_intermediate_text s \<and>
   m_speech_buf (pb_before_decode fd s) = m_speech_buf s \<and>
   m_speech_started (pb_before_decode fd s) = m_speech_started s \<and>
   m_ds_stream (pb_before_decode fd s) = m_ds_stream s \<and>
   m_ds_model (pb_before_decode fd s) = m_ds_model s \<and>
   m_speech_detection_status (pb_before_decode fd s) =
     (if fd \<and> m_speech_mode s \<noteq> automatic then decoding else m_speech_detection_status s) \<and>
   flushes (trace (pb_before_decode fd s)) = flushes (trace s) \<and>
   texts (trace (pb_before_decode fd s)) = texts (trace s) \<and>
   timeouts (trace (pb_before_decode fd s)) = timeouts (trace s) \<and>
   feeds (trace (pb_before_decode fd s)) = feeds (trace s)"
  by (simp add: pb_before_decode_def set_status_keeps)

lemma pb_after_decode_keeps:
  "m_speech_buf (pb_after_decode eof fd old s) = [] \<and>
   m_speech_mode (pb_after_decode eof fd old s) = m_speech_mode s \<and>
   m_intermediate_text (pb_after_decode eof fd old s) = m_intermediate_text s \<and>
   m_ds_stream (pb_after_decode eof fd old s) = m_ds_stream s \<and>
   m_speech_detection_status (pb_after_decode eof fd old s) =
     (if fd \<or> (m_speech_mode s = manual \<and> \<not> m_speech_started s) then no_speech else old) \<and>
   flushes (trace (pb_after_decode eof fd old s)) =
     flushes (trace s) @
       (if fd then [if \<not> eof \<and> m_speech_mode s = automatic then Regular else Eof] else []) \<and>
   texts (trace (pb_after_decode eof fd old s)) = texts (trace s) \<and>
   timeouts (trace (pb_after_decode eof fd old s)) = timeouts (trace s) \<and>
   feeds (trace (pb_after_decode eof fd old s)) = feeds (trace s)"
  by (simp add: pb_after_decode_def Let_def flush_def set_status_keeps emit_def obs_append)

lemma final_decode_reads:
  "m_speech_mode s' = m_speech_mode s \<Longrightarrow> m_intermediate_text s' = m_intermediate_text s \<Longrightarrow>
   final_decode eof v s' = final_decode eof v s"
  by (simp add: final_decode_def)

lemma final_decode_iff:
  "final_decode eof v s \<longleftrightarrow>
     eof \<or>
     (m_speech_mode s = single_sentence \<and> (\<exists>t. m_intermediate_text s = Some t \<and> t \<noteq> []) \<and> \<not> v) \<or>
     (m_speech_mode s = automatic \<and> \<not> v)"
  by (auto simp: final_decode_def split: option.splits)

lemma pb_decode_unfold:
  "pb_decode i s =
     (case decode_speech i (m_speech_buf s) (final_decode (in_eof i) (vad_buf i \<noteq> []) s)
             (pb_before_decode (final_decode (in_eof i) (vad_buf i \<noteq> []) s) s) of
        Inl e \<Rightarrow> Inl e
      | Inr s2 \<Rightarrow>
          Inr (pb_after_decode (in_eof i) (final_decode (in_eof i) (vad_buf i \<noteq> []) s)
                 (m_speech_detection_status s) s2))"
  by (simp add: pb_decode_def Let_def pb_before_decode_keeps)

lemma pb_decode_returns_flushes:
  assumes "pb_decode i s = Inr s'"
  shows "flushes (trace s') = flushes (trace s) @
           (if final_decode (in_eof i) (vad_buf i \<noteq> []) s
            then [if \<not> in_eof i \<and> m_speech_mode s = automatic then Regular else Eof]
            else [])"
proof -
  let ?fd = "final_decode (in_eof i) (vad_buf i \<noteq> []) s"
  from assms obtain s2 where
    d: "decode_speech i (m_speech_buf s) ?fd (pb_before_decode ?fd s) = Inr s2" and
    s': "s' = pb_after_decode (in_eof i) ?fd (m_speech_detection_status s) s2"
    unfolding pb_decode_unfold by (auto split: sum.splits)
  show ?thesis
    unfolding s' using decode_speech_keeps [OF d]
    by (simp add: pb_after_decode_keeps pb_before_decode_keeps)
qed

lemma pb_decode_throws:
  assumes "pb_decode i s = Inl (e, s')"
  shows "\<not> final_decode (in_eof i) (vad_buf i \<noteq> []) s \<and>
         create_ds_stream i s = Inl (e, s')"
proof -
  let ?fd = "final_decode (in_eof i) (vad_buf i \<noteq> []) s"
  from assms have
    d: "decode_speech i (m_speech_buf s) ?fd (pb_before_decode ?fd s) = Inl (e, s')"
    unfolding pb_decode_unfold by (auto split: sum.splits)
  note both = decode_speech_throws [OF d]
  from both have nf: "\<not> ?fd" by (rule conjunct2)
  from both have c: "create_ds_stream i (pb_before_decode ?fd s) = Inl (e, s')" by (rule conjunct1)
  from nf have "pb_before_decode ?fd s = s" by (simp add: pb_before_decode_def)
  with c nf show ?thesis by simp
qed

lemma pb_decode_timeouts:
  assumes "pb_decode i s = Inr s'"
  shows "timeouts (trace s') = timeouts (trace s)"
proof -
  let ?fd = "final_decode (in_eof i) (vad_buf i \<noteq> []) s"
  from assms obtain s2 where
    d: "decode_speech i (m_speech_buf s) ?fd (pb_before_decode ?fd s) = Inr s2" and
    s': "s' = pb_after_decode (in_eof i) ?fd (m_speech_detection_status s) s2"
    unfolding pb_decode_unfold by (auto split: sum.splits)
  show ?thesis
    unfolding s' using decode_speech_keeps [OF d]
    by (simp add: pb_after_decode_keeps pb_before_decode_keeps)
qed


lemma process_buff_past_vad:
  assumes "lock_ok i" and "pb_sof i s = Inr s1" and "\<not> m_thread_exit_requested s"
  shows "process_buff i s =
           (case pb_decode i (pb_vad i s1) of
              Inl e \<Rightarrow> Inl e
            | Inr s3 \<Rightarrow> Inr (wait_for_samples, s3))"
  using assms pb_sof_keeps [OF assms(2)] pb_vad_keeps [of i s1]
  by (simp add: process_buff_def Let_def)

lemma process_buff_timeouts:
  assumes "lock_ok i" and "process_buff i s = Inr (r, s')"
  shows "timeouts (trace s') = timeouts (trace s) + (if idle_step i s then 1 else 0)"
proof -
  from assms obtain s1 where sof: "pb_sof i s = Inr s1"
    by (auto simp: process_buff_def split: sum.splits)
  note k1 = pb_sof_keeps [OF sof]
  let ?s2 = "pb_vad i s1"
  have t2: "timeouts (trace ?s2) = timeouts (trace s) + (if idle_step i s then 1 else 0)"
    using k1 assms(1) by (simp add: pb_vad_timeouts idle_step_def)
  show ?thesis
  proof (cases "m_thread_exit_requested ?s2")
    case True
    with assms sof have "s' = ?s2" by (simp add: process_buff_def Let_def)
    with t2 show ?thesis by simp
  next
    case False
    with assms sof obtain s3 where d: "pb_decode i ?s2 = Inr s3" and "s' = s3"
      by (auto simp: process_buff_def Let_def split: sum.splits)
    with pb_decode_timeouts [OF d] t2 show ?thesis by simp
  qed
qed

lemma reset_impl_fields:
  "m_speech_buf (reset_impl s) = [] \<and> m_ds_stream (reset_impl s) = None \<and>
   m_intermediate_text (reset_impl s) = m_intermediate_text s"
  by (simp add: reset_impl_def free_ds_stream_keeps)

lemma reset_impl_trace:
  "trace (reset_impl s) =
     trace s @ (case m_ds_stream s of None \<Rightarrow> [] | Some h \<Rightarrow> [STT_FreeStream h])"
  by (simp add: reset_impl_def free_ds_stream_def emit_def split: option.splits)

lemma reset_impl_twice: "reset_impl (reset_impl s) = reset_impl s"
  by (cases "m_ds_stream s") (simp_all add: reset_impl_def free_ds_stream_def emit_def)

lemma reset_impl_of_reset: "reset_impl (reset s) = reset_impl s\<lparr>m_start_time := None, m_intermediate_text := None\<rparr>"
  by (cases "m_ds_stream s") (simp_all add: reset_def reset_impl_def free_ds_stream_def emit_def)

section \<open>The final-decode flag\<close>

text \<open>
  C1. In every step that reaches line 190 (the frame was claimed, the start marker was
  handled without an exception and no exit was requested), the flag \<open>final_decode\<close>
  is true exactly when the frame has \<open>eof\<close> set, or the mode is single-sentence, a
  non-empty intermediate text exists and the detector found no speech in this step, or
  the mode is automatic and the detector found no speech in this step. The mode and the
  intermediate text are those the engine had when the step began, and the rest of the
  step is \<open>decode_speech\<close> and the lines after it run with exactly this flag.
\<close>

theorem final_decode_flag:
  assumes "lock_ok i" and "pb_sof i s = Inr s1" and "\<not> m_thread_exit_requested s"
  shows "\<exists>fd.
           (fd \<longleftrightarrow>
              in_eof i \<or>
              (m_speech_mode s = single_sentence \<and>
               (\<exists>t. m_intermediate_text s = Some t \<and> t \<noteq> []) \<and> vad_buf i = []) \<or>
              (m_speech_mode s = automatic \<and> vad_buf i = [])) \<and>
           final_decode (in_eof i) (vad_buf i \<noteq> []) (pb_vad i s1) = fd \<and>
           process_buff i s =
             (case decode_speech i (m_speech_buf (pb_vad i s1)) fd (pb_before_decode fd (pb_vad i s1)) of
                Inl e \<Rightarrow> Inl e
              | Inr s3 \<Rightarrow>
                  Inr (wait_for_samples,
                       pb_after_decode (in_eof i) fd (m_speech_detection_status (pb_vad i s1)) s3))"
proof -
  let ?s2 = "pb_vad i s1"
  let ?fd = "final_decode (in_eof i) (vad_buf i \<noteq> []) ?s2"
  have a: "?fd \<longleftrightarrow>
              in_eof i \<or>
              (m_speech_mode s = single_sentence \<and>
               (\<exists>t. m_intermediate_text s = Some t \<and> t \<noteq> []) \<and> vad_buf i = []) \<or>
              (m_speech_mode s = automatic \<and> vad_buf i = [])"
    using pb_sof_keeps [OF assms(2)] pb_vad_keeps [of i s1]
    by (simp add: final_decode_iff)
  have b: "process_buff i s =
             (case decode_speech i (m_speech_buf ?s2) ?fd (pb_before_decode ?fd ?s2) of
                Inl e \<Rightarrow> Inl e
              | Inr s3 \<Rightarrow>
                  Inr (wait_for_samples,
                       pb_after_decode (in_eof i) ?fd (m_speech_detection_status ?s2) s3))"
    by (simp add: process_buff_past_vad [OF assms] pb_decode_unfold split: sum.splits)
  from a b show ?thesis by blast
qed

theorem final_decode_flag_witness:
  "lock_ok (frame False False [] ''hi there'') \<and>
   pb_sof (frame False False [] ''hi there'') (listening single_sentence) =
     Inr (listening single_sentence) \<and>
   \<not> m_thread_exit_requested (listening single_sentence) \<and>
   final_decode False False (pb_vad (frame False False [] ''hi there'') (listening single_sentence))"
  using final_decode_flag [of "frame False False [] ''hi there''" "listening single_sentence"
      "listening single_sentence"]
  by (simp add: pb_sof_def frame_def started_def listening_def)

section \<open>The flush signal\<close>

text \<open>
  C2. In every step that computes \<open>final_decode\<close>, the step emits exactly one flush
  when the flag is true, of kind \<open>Regular\<close> when the frame's \<open>eof\<close> flag is false and
  the mode is automatic and of kind \<open>Eof\<close> otherwise, and no flush when the flag is
  false. A step that ends in an exception had a false flag and emitted no flush. The
  flag depends on the mode and the intermediate text only, which the step has not
  changed when it computes it, so it is written here over the engine before the step.
\<close>

theorem flush_once_per_final_decode:
  assumes "lock_ok i" and "pb_sof i s = Inr s1" and "\<not> m_thread_exit_requested s"
  shows "case process_buff i s of
           Inr (r, s') \<Rightarrow>
             flushes (trace s') = flushes (trace s) @
               (if final_decode (in_eof i) (vad_buf i \<noteq> []) s
                then [if \<not> in_eof i \<and> m_speech_mode s = automatic then Regular else Eof]
                else [])
         | Inl (e, s') \<Rightarrow>
             \<not> final_decode (in_eof i) (vad_buf i \<noteq> []) s \<and> flushes (trace s') = flushes (trace s)"
proof -
  let ?s2 = "pb_vad i s1"
  have keep: "m_speech_mode ?s2 = m_speech_mode s" "m_intermediate_text ?s2 = m_intermediate_text s"
    "flushes (trace ?s2) = flushes (trace s)"
    using pb_sof_keeps [OF assms(2)] pb_vad_keeps [of i s1] by simp_all
  have fd: "final_decode (in_eof i) (vad_buf i \<noteq> []) ?s2 =
            final_decode (in_eof i) (vad_buf i \<noteq> []) s"
    by (rule final_decode_reads [OF keep(1) keep(2)])
  show ?thesis
  proof (cases "pb_decode i ?s2")
    case (Inr s3)
    from pb_decode_returns_flushes [OF Inr] show ?thesis
      by (simp add: process_buff_past_vad [OF assms] Inr fd keep)
  next
    case (Inl p)
    obtain e s3 where p: "p = (e, s3)" by (cases p)
    from pb_decode_throws [OF Inl [unfolded p]] create_ds_stream_throws [of i ?s2 e s3]
    have "\<not> final_decode (in_eof i) (vad_buf i \<noteq> []) ?s2" "flushes (trace s3) = flushes (trace ?s2)"
      by simp_all
    then show ?thesis
      by (simp add: process_buff_past_vad [OF assms] Inl p fd keep)
  qed
qed

theorem flush_once_per_final_decode_witness:
  "lock_ok (frame False False [] ''hi there'') \<and>
   pb_sof (frame False False [] ''hi there'') (listening automatic) = Inr (listening automatic) \<and>
   \<not> m_thread_exit_requested (listening automatic) \<and>
   final_decode False False (listening automatic) \<and>
   (case process_buff (frame False False [] ''hi there'') (listening automatic) of
      Inr (r, s') \<Rightarrow> flushes (trace s') = [Regular]
    | Inl e \<Rightarrow> False)"
  using flush_once_per_final_decode [of "frame False False [] ''hi there''" "listening automatic" "listening automatic"]
  by (simp add: pb_sof_def frame_def started_def listening_def final_decode_def split: sum.splits prod.splits)

section \<open>The sentence timeout\<close>

text \<open>
  C3, as the code has it. In a run of consecutive idle steps the callback
  \<open>sentence_timeout\<close> fires once in every step: the run returns, and it adds as many
  timeouts to the trace as it has steps. Nothing in the step records that the callback
  was already delivered for the idle period.
\<close>

theorem sentence_timeout_every_idle_step:
  assumes "idle_run steps s"
  shows "\<exists>s'. run_steps steps s = Inr s' \<and>
              timeouts (trace s') = timeouts (trace s) + length steps"
  using assms
proof (induction steps arbitrary: s)
  case Nil
  then show ?case by simp
next
  case (Cons i rest)
  from Cons.prems obtain r s1 where
    idle: "idle_step i s" and step: "process_buff i s = Inr (r, s1)" and rest: "idle_run rest s1"
    by (auto split: sum.splits prod.splits)
  from idle have lock: "lock_ok i" by (simp add: idle_step_def)
  from process_buff_timeouts [OF lock step] idle
  have one: "timeouts (trace s1) = Suc (timeouts (trace s))" by simp
  from Cons.IH [OF rest] obtain s' where
    "run_steps rest s1 = Inr s'" and "timeouts (trace s') = timeouts (trace s1) + length rest"
    by blast
  with step one show ?case by simp
qed

theorem sentence_timeout_every_idle_step_witness:
  "idle_run [idle_frame 3, idle_frame 4, idle_frame 5] idle_engine \<and>
   (\<exists>s'. run_steps [idle_frame 3, idle_frame 4, idle_frame 5] idle_engine = Inr s' \<and>
         timeouts (trace s') = 3)"
  using sentence_timeout_every_idle_step [of "[idle_frame 3, idle_frame 4, idle_frame 5]" idle_engine]
  by (simp add: idle_step_def idle_engine_def idle_frame_def frame_def started_def step_defs Let_def)

text \<open>
  C3, as stated, fails: two consecutive idle steps form one idle period, and the callback
  fires twice.
\<close>

theorem sentence_timeout_twice_counterexample:
  "idle_run [idle_frame 10, idle_frame 11] idle_engine \<and>
   (case run_steps [idle_frame 10, idle_frame 11] idle_engine of
      Inr s' \<Rightarrow> timeouts (trace s') = 2
    | Inl e \<Rightarrow> False)"
  by (simp add: idle_step_def idle_engine_def idle_frame_def frame_def started_def step_defs Let_def)

section \<open>Failure to create the decoding session\<close>

text \<open>
  C4, as the code has it. With no session open and an initialised model, a backend
  that returns a non-zero status or a null stream makes \<open>create_ds_stream\<close> throw; the
  exception leaves \<open>decode_speech\<close> before any audio is fed, and it leaves
  \<open>process_buff\<close> when the start marker asked for the session. When a session is open
  or the model handle is null, \<open>create_ds_stream\<close> returns at its first line and
  leaves the engine as it was. With an initialised model, a call of \<open>decode_speech\<close>
  that returns either did nothing (final flag, no session) or fed its buffer to a live
  session.
\<close>

theorem create_ds_stream_failure:
  "(m_ds_stream s = None \<and> m_ds_model s = Some m \<and>
      (create_status i \<noteq> 0 \<or> create_stream i = None) \<longrightarrow>
      (\<exists>s1. create_ds_stream i s = Inl (runtime_error ''failed to create ds stream'', s1) \<and>
            decode_speech i buf False s = Inl (runtime_error ''failed to create ds stream'', s1) \<and>
            feeds (trace s1) = feeds (trace s))) \<and>
   (lock_ok i \<and> in_sof i \<and> m_ds_model s = Some m \<and>
      (create_status i \<noteq> 0 \<or> create_stream i = None) \<longrightarrow>
      (\<exists>s1. process_buff i s = Inl (runtime_error ''failed to create ds stream'', s1) \<and>
            feeds (trace s1) = feeds (trace s))) \<and>
   (m_ds_stream s \<noteq> None \<or> m_ds_model s = None \<longrightarrow> create_ds_stream i s = Inr s) \<and>
   (m_ds_model s \<noteq> None \<and> decode_speech i buf eof s = Inr s' \<longrightarrow>
      (s' = s \<and> m_ds_stream s = None \<and> eof) \<or>
      (\<exists>h. feeds (trace s') = feeds (trace s) @ [(Some h, buf)]))"
proof (intro conjI impI)
  assume a: "m_ds_stream s = None \<and> m_ds_model s = Some m \<and>
             (create_status i \<noteq> 0 \<or> create_stream i = None)"
  let ?s1 = "(emit (STT_CreateStream m) s)\<lparr>m_ds_stream := create_stream i\<rparr>"
  from a have c: "create_ds_stream i s = Inl (runtime_error ''failed to create ds stream'', ?s1)"
    by (intro create_ds_stream_fails) simp_all
  from a c have d: "decode_speech i buf False s = Inl (runtime_error ''failed to create ds stream'', ?s1)"
    by (simp add: decode_speech_def)
  have "feeds (trace ?s1) = feeds (trace s)" by (simp add: emit_def obs_append)
  with c d show "\<exists>s1. create_ds_stream i s = Inl (runtime_error ''failed to create ds stream'', s1) \<and>
            decode_speech i buf False s = Inl (runtime_error ''failed to create ds stream'', s1) \<and>
            feeds (trace s1) = feeds (trace s)" by blast
next
  assume a: "lock_ok i \<and> in_sof i \<and> m_ds_model s = Some m \<and>
             (create_status i \<noteq> 0 \<or> create_stream i = None)"
  then obtain s1 where "pb_sof i s = Inl (runtime_error ''failed to create ds stream'', s1)"
    and "feeds (trace s1) = feeds (trace s)"
    using pb_sof_fails [of i s m] by blast
  with a show "\<exists>s1. process_buff i s = Inl (runtime_error ''failed to create ds stream'', s1) \<and>
            feeds (trace s1) = feeds (trace s)"
    by (simp add: process_buff_def)
next
  assume "m_ds_stream s \<noteq> None \<or> m_ds_model s = None"
  then show "create_ds_stream i s = Inr s" by (rule create_ds_stream_guard)
next
  assume a: "m_ds_model s \<noteq> None \<and> decode_speech i buf eof s = Inr s'"
  then have d: "decode_speech i buf eof s = Inr s'" by simp
  from decode_speech_feeds [OF d]
  show "(s' = s \<and> m_ds_stream s = None \<and> eof) \<or>
        (\<exists>h. feeds (trace s') = feeds (trace s) @ [(Some h, buf)])"
  proof
    assume "s' = s \<and> m_ds_stream s = None \<and> eof"
    then show ?thesis by blast
  next
    assume "\<exists>s1. create_ds_stream i s = Inr s1 \<and>
               feeds (trace s') = feeds (trace s) @ [(m_ds_stream s1, buf)]"
    then obtain s1 where c: "create_ds_stream i s = Inr s1"
      and f: "feeds (trace s') = feeds (trace s) @ [(m_ds_stream s1, buf)]" by blast
    from create_ds_stream_keeps [OF c] a obtain h where "m_ds_stream s1 = Some h" by auto
    with f show ?thesis by auto
  qed
qed

theorem create_ds_stream_failure_witness:
  "m_ds_stream (started automatic) = None \<and> m_ds_model (started automatic) = Some 1 \<and>
   create_status failing_frame \<noteq> 0 \<and>
   (\<exists>s1. create_ds_stream failing_frame (started automatic) =
            Inl (runtime_error ''failed to create ds stream'', s1) \<and>
         decode_speech failing_frame [5] False (started automatic) =
            Inl (runtime_error ''failed to create ds stream'', s1) \<and>
         feeds (trace s1) = [])"
  using create_ds_stream_failure [of "started automatic" 1 failing_frame "[5]" False "started automatic"]
  by (simp add: failing_frame_def frame_def started_def)

text \<open>
  C4, as stated, fails for a model handle that is not initialised: \<open>create_ds_stream\<close>
  returns normally with no session, and a non-final \<open>decode_speech\<close> goes on to feed the
  buffer to the null stream.
\<close>

theorem create_ds_stream_silent_counterexample:
  "m_ds_model (unstarted automatic) = None \<and>
   create_ds_stream (frame False False [5] ''hi'') (unstarted automatic) = Inr (unstarted automatic) \<and>
   m_ds_stream (unstarted automatic) = None \<and>
   (case decode_speech (frame False False [5] ''hi'') [5] False (unstarted automatic) of
      Inr s' \<Rightarrow> m_ds_stream s' = None \<and> feeds (trace s') = [(None, [5])]
    | Inl e \<Rightarrow> False)"
  by (simp add: unstarted_def frame_def started_def step_defs Let_def)

section \<open>Decoding with the final flag and no session\<close>

text \<open>
  C5. A call of \<open>decode_speech\<close> with the final flag set while no decoding session is
  open returns normally and leaves the engine as it was: the trace gains no call into
  the backend (no feed, finalize or free, nor any other) and no callback, and the
  intermediate text is unchanged. This holds whatever the buffer holds, in particular
  for an engine that never had a session and an empty buffer.
\<close>

theorem decode_speech_eof_no_session:
  assumes "m_ds_stream s = None"
  shows "decode_speech i buf True s = Inr s"
  using assms by (simp add: decode_speech_def)

theorem decode_speech_eof_no_session_witness:
  "m_ds_stream (started manual) = None \<and>
   decode_speech (frame False True [] ''hello'') [] True (started manual) = Inr (started manual) \<and>
   trace (started manual) = [] \<and> m_intermediate_text (started manual) = None"
  using decode_speech_eof_no_session [of "started manual" "frame False True [] ''hello''" "[]"]
  by (simp add: started_def)

section \<open>Deduplication of the intermediate text\<close>

text \<open>
  C6. Every call of \<open>decode_speech\<close> that decodes (intermediate or final) and returns
  emits the decoded string through the intermediate-text callback exactly when it
  differs from the stored intermediate text (there is none, or it is another string),
  and stores it. A second decode that follows and yields the same string emits nothing,
  so two consecutive decodes with identical results produce one callback, from the
  first, when that one brought a change.
\<close>

theorem intermediate_text_dedup:
  assumes "\<not> (m_ds_stream s = None \<and> eof)" and "decode_speech i buf eof s = Inr s'"
  shows "texts (trace s') =
           texts (trace s) @ (if m_intermediate_text s = Some (decoded i) then [] else [decoded i]) \<and>
         m_intermediate_text s' = Some (decoded i) \<and>
         (\<forall>i2 buf2 eof2 s''.
            \<not> (m_ds_stream s' = None \<and> eof2) \<longrightarrow> decode_speech i2 buf2 eof2 s' = Inr s'' \<longrightarrow>
            decoded i2 = decoded i \<longrightarrow> texts (trace s'') = texts (trace s'))"
proof -
  note first = decode_speech_texts [OF assms]
  have "texts (trace s'') = texts (trace s')"
    if "\<not> (m_ds_stream s' = None \<and> eof2)" and "decode_speech i2 buf2 eof2 s' = Inr s''"
      and "decoded i2 = decoded i" for i2 buf2 eof2 s''
    using decode_speech_texts [OF that(1) that(2)] first that(3) by simp
  with first show ?thesis by blast
qed

theorem intermediate_text_dedup_witness:
  "\<not> (m_ds_stream (listening manual) = None \<and> False) \<and>
   decode_speech (frame False False [5] ''hi'') [5] False (listening manual) =
     Inr ((listening manual)\<lparr>trace := [STT_FeedAudioContent (Some 7) [5],
            STT_IntermediateDecode (Some 7), STT_FreeString ''hi'']\<rparr>) \<and>
   texts (trace ((listening manual)\<lparr>trace := [STT_FeedAudioContent (Some 7) [5],
            STT_IntermediateDecode (Some 7), STT_FreeString ''hi'']\<rparr>)) = [] \<and>
   m_intermediate_text (listening manual) = Some ''hi''"
  using intermediate_text_dedup [of "listening manual" False "frame False False [5] ''hi''" "[5]"
      "(listening manual)\<lparr>trace := [STT_FeedAudioContent (Some 7) [5],
            STT_IntermediateDecode (Some 7), STT_FreeString ''hi'']\<rparr>"]
  by (simp add: listening_def frame_def started_def step_defs Let_def)

section \<open>The status at the end of a step\<close>

text \<open>
  C7. At the end of every step that ran through the decode (the frame was claimed, no
  exit was requested, no exception), the speech-detection status is \<open>no_speech\<close> when
  \<open>final_decode\<close> is true or the mode is manual and speech never started; in every
  other case it is the status captured at line 200, before the decode.
\<close>

theorem final_status:
  assumes "lock_ok i" and "pb_sof i s = Inr s1" and "\<not> m_thread_exit_requested s"
    and "process_buff i s = Inr (r, s')"
  shows "m_speech_detection_status s' =
           (if final_decode (in_eof i) (vad_buf i \<noteq> []) (pb_vad i s1) \<or>
               (m_speech_mode s = manual \<and> \<not> m_speech_started s)
            then no_speech
            else m_speech_detection_status (pb_vad i s1))"
proof -
  let ?s2 = "pb_vad i s1"
  let ?fd = "final_decode (in_eof i) (vad_buf i \<noteq> []) ?s2"
  from assms(4) obtain s3 where
    d: "decode_speech i (m_speech_buf ?s2) ?fd (pb_before_decode ?fd ?s2) = Inr s3"
    and s': "s' = pb_after_decode (in_eof i) ?fd (m_speech_detection_status ?s2) s3"
    by (auto simp: process_buff_past_vad [OF assms(1-3)] pb_decode_unfold split: sum.splits)
  show ?thesis
    unfolding s'
    using decode_speech_keeps [OF d] pb_sof_keeps [OF assms(2)] pb_vad_keeps [of i s1]
    by (simp add: pb_after_decode_keeps pb_before_decode_keeps)
qed

theorem final_status_witness:
  "lock_ok (frame False False [5] ''hi there'') \<and>
   pb_sof (frame False False [5] ''hi there'') (listening single_sentence) =
     Inr (listening single_sentence) \<and>
   \<not> m_thread_exit_requested (listening single_sentence) \<and>
   process_buff (frame False False [5] ''hi there'') (listening single_sentence) =
     Inr (wait_for_samples,
          (listening single_sentence)\<lparr>m_intermediate_text := Some ''hi there'',
             m_start_time := Some 0,
             trace := [STT_FeedAudioContent (Some 7) [5], STT_IntermediateDecode (Some 7),
                       STT_FreeString ''hi there'', on_intermediate_text ''hi there'']\<rparr>) \<and>
   m_speech_detection_status
     ((listening single_sentence)\<lparr>m_intermediate_text := Some ''hi there'',
             m_start_time := Some 0,
             trace := [STT_FeedAudioContent (Some 7) [5], STT_IntermediateDecode (Some 7),
                       STT_FreeString ''hi there'', on_intermediate_text ''hi there'']\<rparr>) =
     m_speech_detection_status (listening single_sentence)"
  using final_status [of "frame False False [5] ''hi there''" "listening single_sentence"
      "listening single_sentence" wait_for_samples
      "(listening single_sentence)\<lparr>m_intermediate_text := Some ''hi there'',
             m_start_time := Some 0,
             trace := [STT_FeedAudioContent (Some 7) [5], STT_IntermediateDecode (Some 7),
                       STT_FreeString ''hi there'', on_intermediate_text ''hi there'']\<rparr>"]
  by (simp add: listening_def frame_def started_def step_defs Let_def)

section \<open>The utterance buffer around the decode\<close>




section \<open>Reset\<close>

text \<open>
  C9. Reset is idempotent: from any engine, calling \<open>reset\<close> twice in a row yields the
  same engine as calling it once, with an empty utterance buffer, no decoding session
  and a cleared intermediate text. The first call frees the stream through
  \<open>STT_FreeStream\<close> when one was open and makes no call otherwise; the second call adds
  nothing to the trace. The hook \<open>reset_impl\<close> of lines 127-130 is idempotent by
  itself, and it is the part that empties the buffer and frees the session.
\<close>

theorem reset_idempotent:
  "reset (reset s) = reset s \<and>
   m_speech_buf (reset s) = [] \<and> m_ds_stream (reset s) = None \<and>
   m_intermediate_text (reset s) = None \<and> m_start_time (reset s) = None \<and>
   trace (reset s) =
     trace s @ (case m_ds_stream s of None \<Rightarrow> [] | Some h \<Rightarrow> [STT_FreeStream h]) \<and>
   trace (reset (reset s)) = trace (reset s) \<and>
   reset_impl (reset_impl s) = reset_impl s \<and>
   m_speech_buf (reset_impl s) = [] \<and> m_ds_stream (reset_impl s) = None \<and>
   trace (reset_impl s) =
     trace s @ (case m_ds_stream s of None \<Rightarrow> [] | Some h \<Rightarrow> [STT_FreeStream h])"
proof -
  have twice: "reset (reset s) = reset s"
    unfolding reset_def [of "reset s"] reset_impl_of_reset by (simp add: reset_def)
  have fields: "m_speech_buf (reset s) = []" "m_ds_stream (reset s) = None"
    "m_intermediate_text (reset s) = None" "m_start_time (reset s) = None"
    by (simp_all add: reset_def reset_impl_fields)
  have tr: "trace (reset s) =
     trace s @ (case m_ds_stream s of None \<Rightarrow> [] | Some h \<Rightarrow> [STT_FreeStream h])"
    by (simp add: reset_def reset_impl_trace)
  from twice have tr2: "trace (reset (reset s)) = trace (reset s)" by simp
  from twice fields tr tr2 reset_impl_twice [of s] reset_impl_fields [of s] reset_impl_trace [of s]
  show ?thesis by simp
qed

theorem reset_idempotent_witness:
  "reset (reset (listening manual)) = reset (listening manual) \<and>
   m_speech_buf (reset (listening manual)) = [] \<and>
   m_ds_stream (reset (listening manual)) = None \<and>
   m_intermediate_text (reset (listening manual)) = None \<and>
   trace (reset (listening manual)) = [STT_FreeStream 7] \<and>
   trace (reset (reset (listening manual))) = [STT_FreeStream 7]"
  using reset_idempotent [of "listening manual"]
  by (simp add: listening_def started_def)

section \<open>The final transcript\<close>

text \<open>
  C10. With a session open, a final decode returns; its result goes through the same
  lines as an intermediate one (\<open>publish_result\<close>), so it is emitted through the
  intermediate-text callback unless it equals the stored intermediate text, and then
  the call produces no callback at all. The stream handle is null in the engine in
  which the result string is copied, and stays null.
\<close>

theorem final_transcript_channel:
  assumes "m_ds_stream s = Some h"
  shows "\<exists>s3 s'.
           decode_cstr i True (emit (STT_FeedAudioContent (Some h) buf) s) = (decoded i, s3) \<and>
           m_ds_stream s3 = None \<and>
           decode_speech i buf True s = Inr s' \<and> s' = publish_result (decoded i) s3 \<and>
           m_ds_stream s' = None \<and>
           callbacks (trace s') =
             callbacks (trace s) @
               (if m_intermediate_text s = Some (decoded i) then []
                else [on_intermediate_text (decoded i)]) \<and>
           (\<exists>s4. decode_speech i buf False s = Inr (publish_result (decoded i) s4))"
proof -
  let ?s2 = "emit (STT_FeedAudioContent (Some h) buf) s"
  let ?s3 = "snd (decode_cstr i True ?s2)"
  have a: "decode_cstr i True ?s2 = (decoded i, ?s3)" by (simp add: decode_cstr_def)
  have b: "m_ds_stream ?s3 = None" by (simp add: decode_cstr_keeps)
  have c: "decode_speech i buf True s = Inr (publish_result (decoded i) ?s3)"
    by (rule decode_speech_open [OF assms])
  have d: "m_ds_stream (publish_result (decoded i) ?s3) = None"
    using b by (simp add: publish_result_keeps)
  have e: "callbacks (trace (publish_result (decoded i) ?s3)) =
             callbacks (trace s) @
               (if m_intermediate_text s = Some (decoded i) then []
                else [on_intermediate_text (decoded i)])"
    by (simp add: callbacks_publish_result callbacks_decode_cstr decode_cstr_keeps emit_keeps)
       (simp add: callbacks_def emit_def)
  have f: "\<exists>s4. decode_speech i buf False s = Inr (publish_result (decoded i) s4)"
    using decode_speech_open [OF assms, of i buf False] by blast
  from a b c d e f show ?thesis by blast
qed

theorem final_transcript_channel_witness:
  "m_ds_stream (listening automatic) = Some 7 \<and>
   (\<exists>s'. decode_speech (frame False False [] ''hi'') [] True (listening automatic) = Inr s' \<and>
         m_ds_stream s' = None \<and> callbacks (trace s') = [])"
  using final_transcript_channel [of "listening automatic" 7 "frame False False [] ''hi''" "[]"]
  by (auto simp add: listening_def frame_def started_def callbacks_def)

end
